theory Spec2Isabelle
  imports Main
begin

section \<open>JavaScript values used by client/app.js\<close>

text \<open>
  The client reads optional string fields of decoded JSON objects and tests them for
  truthiness. A field is modelled as \<open>string option\<close>: \<open>None\<close> is an absent
  (undefined or null) field, \<open>Some s\<close> a string. The empty string is present but falsy.
\<close>

definition truthy :: "string option \<Rightarrow> bool" where
  "truthy v = (case v of None \<Rightarrow> False | Some s \<Rightarrow> s \<noteq> [])"

text \<open>The operator \<^verbatim>\<open>a || b\<close> on two optional strings.\<close>

definition or_else :: "string option \<Rightarrow> string option \<Rightarrow> string option" where
  "or_else a b = (if truthy a then a else b)"

text \<open>\<^verbatim>\<open>a || 'literal'\<close>: the result is always a string.\<close>

definition or_lit :: "string option \<Rightarrow> string \<Rightarrow> string" where
  "or_lit a d = (case a of None \<Rightarrow> d | Some s \<Rightarrow> if s \<noteq> [] then s else d)"

text \<open>\<^verbatim>\<open>s.startsWith(p)\<close> and \<^verbatim>\<open>s.split(c)\<close> for a one-character separator.\<close>

definition startsWith :: "string \<Rightarrow> string \<Rightarrow> bool" where
  "startsWith s p = (take (length p) s = p)"

fun split :: "char \<Rightarrow> string \<Rightarrow> string list" where
  "split c [] = [[]]"
| "split c (x # xs) =
     (if x = c then [] # split c xs
      else (case split c xs of [] \<Rightarrow> [[x]] | l # ls \<Rightarrow> (x # l) # ls))"

text \<open>\<^verbatim>\<open>s.split('/').pop()\<close>: the split of a string is never empty, so pop returns its last piece.\<close>

definition split_pop :: "string \<Rightarrow> string" where
  "split_pop s = last (split (CHR ''/'') s)"

text \<open>\<^verbatim>\<open>xs.join(sep)\<close> on a list of strings.\<close>

fun join :: "string \<Rightarrow> string list \<Rightarrow> string" where
  "join sep [] = []"
| "join sep [x] = x"
| "join sep (x # y # ys) = x @ sep @ join sep (y # ys)"

text \<open>The decimal rendering of a non-negative integer inside a template literal.\<close>

definition digit :: "nat \<Rightarrow> char" where
  "digit d = char_of (48 + d)"

function number_string :: "nat \<Rightarrow> string" where
  "number_string n = (if n < 10 then [digit n] else number_string (n div 10) @ [digit (n mod 10)])"
  by pat_completeness auto
termination
  by (relation "measure id") auto

declare number_string.simps [simp del]

section \<open>Data model\<close>

text \<open>A source of the answer, as the server sends it in \<^verbatim>\<open>sources\<close>.\<close>

record source =
  source :: "string option"
  url :: "string option"
  title :: "string option"
  author :: "string option"

section \<open>The citation renderer (addInlineCitations, lines 266-291)\<close>

text \<open>
  The test of line 277, \<^verbatim>\<open>source.url || (source.source && source.source.startsWith('http'))\<close>.
\<close>

definition has_link :: "source \<Rightarrow> bool" where
  "has_link s =
     (truthy (url s) \<or>
      (case source s of None \<Rightarrow> False | Some l \<Rightarrow> l \<noteq> [] \<and> startsWith l ''http''))"

text \<open>Line 278, \<^verbatim>\<open>source.url || source.source\<close>, written into the template as a string.\<close>

definition link_url :: "source \<Rightarrow> string" where
  "link_url s = (case or_else (url s) (source s) of None \<Rightarrow> ''undefined'' | Some u \<Rightarrow> u)"

text \<open>Line 279, \<^verbatim>\<open>source.title || source.source?.split('/').pop() || 'Source'\<close>.\<close>

definition link_title :: "source \<Rightarrow> string" where
  "link_title s =
     or_lit (or_else (title s) (map_option split_pop (source s))) ''Source''"

text \<open>The callback of \<^verbatim>\<open>sources.map\<close> (lines 275-283) for one source and its index.\<close>

definition citation :: "source \<Rightarrow> nat \<Rightarrow> string" where
  "citation s index =
     (let citationNumber = index + 1 in
      if has_link s then
        ''<a href=\"'' @ link_url s @
        ''\" target=\"_blank\" rel=\"noopener noreferrer\" class=\"citation-link\" title=\"'' @
        link_title s @ ''\">['' @ number_string citationNumber @ '']</a>''
      else
        ''<span class=\"citation-number\">['' @ number_string citationNumber @ '']</span>'')"

text \<open>\<^verbatim>\<open>sources.map((source, index) => ...)\<close>, the index counted from the given start.\<close>

fun citations_from :: "nat \<Rightarrow> source list \<Rightarrow> string list" where
  "citations_from i [] = []"
| "citations_from i (s # ss) = citation s i # citations_from (Suc i) ss"

text \<open>
  The argument \<^verbatim>\<open>sources\<close> is \<open>None\<close> when the caller passes undefined or null
  (a non-streaming answer without the field).
\<close>

definition addInlineCitations :: "string \<Rightarrow> source list option \<Rightarrow> string" where
  "addInlineCitations content srcs =
     (case srcs of
        None \<Rightarrow> content
      | Some ss \<Rightarrow>
          if length ss = 0 then content
          else (let citationsHtml = join '' '' (citations_from 0 ss) in
                if citationsHtml \<noteq> [] then content @ '' '' @ citationsHtml else content))"

section \<open>The page state\<close>

text \<open>
  The children of \<^verbatim>\<open>messagesContainer\<close>: the welcome block, or a message element
  created by \<^verbatim>\<open>addMessage\<close>. A message carries the identity of its content
  element (what \<^verbatim>\<open>addMessage\<close> returns), its type and its content, set either
  through \<^verbatim>\<open>textContent\<close> or through \<^verbatim>\<open>innerHTML\<close>. Syntax highlighting and
  scrolling act on an element after its markup has been set and are not modelled.
\<close>

datatype content = Text string | Html string

datatype node = Welcome | Message nat string content

text \<open>One entry of the sources panel (lines 307-360).\<close>

record source_item =
  item_name :: string
  item_link :: "string option"
  item_author :: "string option"

text \<open>What the inner handler of the streaming loop caught and wrote to the console.\<close>

datatype caught = SyntaxError | TypeError | Error string

datatype log_entry = FailedToParse caught | SourcesNotFound

text \<open>
  The module state (lines 7-8), and the elements of the page the functions below touch.
  \<open>sourcesList\<close> and \<open>sourcesSection\<close> are \<open>None\<close> when the page has no such
  element; \<open>sourcesSection\<close> holds the element's \<^verbatim>\<open>style.display\<close>.
  \<open>next_id\<close> numbers the elements created so far.
\<close>

record page =
  sessionId :: string
  messages :: "(string \<times> string) list"
  container :: "node list"
  next_id :: nat
  sourcesList :: "source_item list option"
  sourcesSection :: "string option"
  console :: "log_entry list"

text \<open>The markup of the loading dots (lines 252-258), with the template's line breaks and indentation.\<close>

definition loadingHTML :: string where
  "loadingHTML =
     [CHR 0x0A] @ ''        <div class=\"loading-dots\">'' @
     [CHR 0x0A] @ ''            <span></span>'' @
     [CHR 0x0A] @ ''            <span></span>'' @
     [CHR 0x0A] @ ''            <span></span>'' @
     [CHR 0x0A] @ ''        </div>'' @
     [CHR 0x0A] @ ''    ''"

text \<open>\<^verbatim>\<open>querySelector('.welcome-message')\<close> followed by \<^verbatim>\<open>remove()\<close>: the first welcome block goes.\<close>

fun remove_welcome :: "node list \<Rightarrow> node list" where
  "remove_welcome [] = []"
| "remove_welcome (Welcome # ns) = ns"
| "remove_welcome (n # ns) = n # remove_welcome ns"

text \<open>addMessage (lines 218-249): returns the new content element and the page.\<close>

definition addMessage :: "string \<Rightarrow> string \<Rightarrow> bool \<Rightarrow> page \<Rightarrow> nat \<times> page" where
  "addMessage c type isHTML p =
     (let contentDiv = next_id p in
      (contentDiv,
       p\<lparr>container := remove_welcome (container p) @
                        [Message contentDiv type (if isHTML then Html c else Text c)],
         next_id := Suc contentDiv\<rparr>))"

definition createLoadingMessage :: "page \<Rightarrow> nat \<times> page" where
  "createLoadingMessage p = addMessage loadingHTML ''assistant'' True p"

text \<open>
  \<^verbatim>\<open>div.parentElement.remove()\<close>: the message element of the given content element
  leaves the container; nothing happens when it is no longer there.
\<close>

fun is_message :: "nat \<Rightarrow> node \<Rightarrow> bool" where
  "is_message i Welcome = False"
| "is_message i (Message j t c) = (i = j)"

definition remove_message :: "nat \<Rightarrow> page \<Rightarrow> page" where
  "remove_message i p = p\<lparr>container := filter (\<lambda>n. \<not> is_message i n) (container p)\<rparr>"

text \<open>\<^verbatim>\<open>div.innerHTML = html\<close>: visible only while the element is in the container.\<close>

fun set_html :: "nat \<Rightarrow> string \<Rightarrow> node \<Rightarrow> node" where
  "set_html i h Welcome = Welcome"
| "set_html i h (Message j t c) = (if i = j then Message j t (Html h) else Message j t c)"

definition set_innerHTML :: "nat \<Rightarrow> string \<Rightarrow> page \<Rightarrow> page" where
  "set_innerHTML i h p = p\<lparr>container := map (set_html i h) (container p)\<rparr>"

text \<open>
  startNewChat (lines 185-191). The fresh session id comes from \<^verbatim>\<open>Math.random\<close>
  and is a parameter. Line 189 raises when the page has no sources list, line 190 when it
  has no sources section; the statements before the raising one have taken effect.
\<close>

definition startNewChat :: "string \<Rightarrow> page \<Rightarrow> page" where
  "startNewChat sid p =
     p\<lparr>sessionId := sid,
       messages := [],
       container := [Welcome],
       sourcesList := map_option (\<lambda>_. []) (sourcesList p),
       sourcesSection := (if sourcesList p = None then sourcesSection p
                          else map_option (\<lambda>_. ''none'') (sourcesSection p))\<rparr>"

section \<open>The sources panel (displaySourcesWithReferences, lines 293-361)\<close>

text \<open>Lines 318-324: the name shown for a source.\<close>

definition displayName :: "source \<Rightarrow> string" where
  "displayName s =
     (case or_else (source s) (url s) of
        Some uri \<Rightarrow> if uri \<noteq> [] then (if split_pop uri \<noteq> [] then split_pop uri else uri)
                    else (if truthy (title s) then the (title s) else ''Unknown source'')
      | None \<Rightarrow> (if truthy (title s) then the (title s) else ''Unknown source''))"

definition source_entry :: "source \<Rightarrow> nat \<Rightarrow> source_item" where
  "source_entry s index =
     \<lparr>item_name = number_string (index + 1) @ ''. '' @ displayName s,
      item_link = (if has_link s then Some (link_url s) else None),
      item_author = (if truthy (author s) then Some (''Author: '' @ the (author s)) else None)\<rparr>"

fun entries_from :: "nat \<Rightarrow> source list \<Rightarrow> source_item list" where
  "entries_from i [] = []"
| "entries_from i (s # ss) = source_entry s i # entries_from (Suc i) ss"

definition displaySourcesWithReferences :: "source list option \<Rightarrow> page \<Rightarrow> page" where
  "displaySourcesWithReferences srcs p =
     (if sourcesSection p = None \<or> sourcesList p = None then
        p\<lparr>console := console p @ [SourcesNotFound]\<rparr>
      else (case srcs of
              None \<Rightarrow> p\<lparr>sourcesSection := Some ''none''\<rparr>
            | Some ss \<Rightarrow>
                if length ss = 0 then p\<lparr>sourcesSection := Some ''none''\<rparr>
                else p\<lparr>sourcesSection := Some ''block'',
                       sourcesList := Some (entries_from 0 ss)\<rparr>))"

definition displaySources :: "source list option \<Rightarrow> page \<Rightarrow> page" where
  "displaySources srcs p = displaySourcesWithReferences srcs p"

section \<open>The streaming path (sendStreamingMessage, lines 443-545)\<close>

text \<open>
  What \<^verbatim>\<open>JSON.parse\<close> of the text after the marker gives, read through the fields
  the loop looks at: \<^verbatim>\<open>type\<close>, and then \<^verbatim>\<open>sources\<close>, \<^verbatim>\<open>text\<close> or
  \<^verbatim>\<open>message\<close>, each \<open>None\<close> when the object has no such field. \<open>OtherType\<close> is a
  value whose \<^verbatim>\<open>type\<close> is none of the three; \<open>NullValue\<close> is the JSON value
  null, on which reading \<^verbatim>\<open>type\<close> raises a TypeError. The fields have the types of
  the wire protocol: a list of sources, a string, a string.
\<close>

datatype sse_data =
    Metadata "source list option"
  | ContentData "string option"
  | ErrorData "string option"
  | OtherType
  | NullValue

text \<open>
  \<^verbatim>\<open>JSON.parse\<close> is a built-in of the language and \<^verbatim>\<open>marked.parse\<close> a library
  function: both are parameters of the model. \<open>JSON_parse s = None\<close> when the built-in
  raises a SyntaxError on \<open>s\<close>.
\<close>

type_synonym json_parse = "string \<Rightarrow> sse_data option"

type_synonym marked = "string \<Rightarrow> string"

text \<open>The local variables of one call (lines 445-449).\<close>

record stream_state =
  loadingDiv :: nat
  fullResponse :: string
  sources :: "source list"
  responseDiv :: "nat option"
  hasCreatedResponseDiv :: bool

text \<open>A string appended with \<^verbatim>\<open>+=\<close>: an absent field appends the text "undefined".\<close>

definition to_string :: "string option \<Rightarrow> string" where
  "to_string v = (case v of None \<Rightarrow> ''undefined'' | Some s \<Rightarrow> s)"

text \<open>\<^verbatim>\<open>new Error(m).message\<close>: empty when \<open>m\<close> is undefined.\<close>

definition error_message :: "string option \<Rightarrow> string" where
  "error_message v = (case v of None \<Rightarrow> [] | Some s \<Rightarrow> s)"

text \<open>
  Lines 487-491 and 494-500. The content element of the loading message keeps its parent
  after the parent has left the container, so \<^verbatim>\<open>loadingDiv && loadingDiv.parentElement\<close>
  holds throughout and the response element is created whenever the flag is unset.
\<close>

definition create_response_div :: "stream_state \<times> page \<Rightarrow> stream_state \<times> page" where
  "create_response_div sp =
     (case sp of (st, p) \<Rightarrow>
        if \<not> hasCreatedResponseDiv st then
          (let (d, p') = addMessage [] ''assistant'' False (remove_message (loadingDiv st) p)
           in (st\<lparr>responseDiv := Some d, hasCreatedResponseDiv := True\<rparr>, p'))
        else (st, p))"

text \<open>Lines 506-521: the response element shows the whole text so far with its citations.\<close>

definition render :: "marked \<Rightarrow> stream_state \<times> page \<Rightarrow> stream_state \<times> page" where
  "render marked_parse sp =
     (case sp of (st, p) \<Rightarrow>
        (case responseDiv st of
           None \<Rightarrow> (st, p)
         | Some d \<Rightarrow>
             (let formattedContent = marked_parse (fullResponse st);
                  contentWithCitations = addInlineCitations formattedContent (Some (sources st))
              in (st, set_innerHTML d contentWithCitations p))))"

text \<open>
  The body of the inner \<^verbatim>\<open>try\<close> (lines 482-524) after the parse, together with its
  handler (lines 525-527): whatever is raised inside is written to the console, and the
  loop goes on with the next line.
\<close>

fun handle_data :: "marked \<Rightarrow> sse_data option \<Rightarrow> stream_state \<times> page \<Rightarrow> stream_state \<times> page" where
  "handle_data marked_parse None (st, p) =
     (st, p\<lparr>console := console p @ [FailedToParse SyntaxError]\<rparr>)"
| "handle_data marked_parse (Some (Metadata srcs)) (st, p) =
     create_response_div (st\<lparr>sources := (case srcs of None \<Rightarrow> [] | Some ss \<Rightarrow> ss)\<rparr>, p)"
| "handle_data marked_parse (Some (ContentData t)) (st, p) =
     (case create_response_div (st, p) of (st1, p1) \<Rightarrow>
        render marked_parse (st1\<lparr>fullResponse := fullResponse st1 @ to_string t\<rparr>, p1))"
| "handle_data marked_parse (Some (ErrorData m)) (st, p) =
     (st, p\<lparr>console := console p @ [FailedToParse (Error (error_message m))]\<rparr>)"
| "handle_data marked_parse (Some OtherType) (st, p) = (st, p)"
| "handle_data marked_parse (Some NullValue) (st, p) =
     (st, p\<lparr>console := console p @ [FailedToParse TypeError]\<rparr>)"

text \<open>Lines 480-528: one line of a chunk.\<close>

definition process_line :: "json_parse \<Rightarrow> marked \<Rightarrow> string \<Rightarrow> stream_state \<times> page \<Rightarrow> stream_state \<times> page" where
  "process_line JSON_parse marked_parse line sp =
     (if startsWith line ''data: '' then handle_data marked_parse (JSON_parse (drop 6 line)) sp
      else sp)"

text \<open>Lines 479-529: the lines of a chunk in order.\<close>

fun process_lines :: "json_parse \<Rightarrow> marked \<Rightarrow> string list \<Rightarrow> stream_state \<times> page \<Rightarrow> stream_state \<times> page" where
  "process_lines JSON_parse marked_parse [] sp = sp"
| "process_lines JSON_parse marked_parse (line # lines) sp =
     process_lines JSON_parse marked_parse lines (process_line JSON_parse marked_parse line sp)"

text \<open>
  Lines 476-477: a chunk is decoded on its own and split on the newline character; no
  text is carried over from one chunk to the next. A chunk is modelled by its decoded text.
\<close>

definition process_chunk :: "json_parse \<Rightarrow> marked \<Rightarrow> string \<Rightarrow> stream_state \<times> page \<Rightarrow> stream_state \<times> page" where
  "process_chunk JSON_parse marked_parse chunk sp =
     process_lines JSON_parse marked_parse (split (CHR 0x0A) chunk) sp"

text \<open>
  Lines 472-530: the read loop over the chunks the reader delivers, until it reports
  \<^verbatim>\<open>done\<close> or a read is rejected. The chunks of a response are a finite list: the loop
  ends when the transport closes the stream. The function suspends only at
  \<^verbatim>\<open>await reader.read()\<close>, once per chunk.
\<close>

fun read_loop :: "json_parse \<Rightarrow> marked \<Rightarrow> string list \<Rightarrow> stream_state \<times> page \<Rightarrow> stream_state \<times> page" where
  "read_loop JSON_parse marked_parse [] sp = sp"
| "read_loop JSON_parse marked_parse (chunk # chunks) sp =
     read_loop JSON_parse marked_parse chunks (process_chunk JSON_parse marked_parse chunk sp)"

text \<open>How the body of the response ends: the reader reports done, or a read is rejected.\<close>

datatype stream_end = Done | ReadFailed string

text \<open>The call of \<^verbatim>\<open>fetch\<close>: rejected, or a response with its \<^verbatim>\<open>ok\<close> flag and its body.\<close>

datatype 'b fetched = Rejected string | Response bool 'b

text \<open>Lines 445-449: the loading dots, and the initial local variables.\<close>

definition stream_begin :: "page \<Rightarrow> stream_state \<times> page" where
  "stream_begin p =
     (let (d, p') = createLoadingMessage p
      in (\<lparr>loadingDiv = d, fullResponse = [], sources = [], responseDiv = None,
           hasCreatedResponseDiv = False\<rparr>, p'))"

text \<open>Lines 532-536: after the loop.\<close>

definition stream_finish :: "stream_state \<times> page \<Rightarrow> page" where
  "stream_finish sp =
     (case sp of (st, p) \<Rightarrow>
        (let p1 = displaySourcesWithReferences (Some (sources st)) p
         in p1\<lparr>messages := messages p1 @ [(''assistant'', fullResponse st)]\<rparr>))"

text \<open>Lines 538-544: the outer handler.\<close>

definition stream_catch :: "string \<Rightarrow> stream_state \<times> page \<Rightarrow> page" where
  "stream_catch msg sp =
     (case sp of (st, p) \<Rightarrow>
        snd (addMessage (''Error: '' @ msg) ''assistant'' False (remove_message (loadingDiv st) p)))"

definition sendStreamingMessage ::
  "json_parse \<Rightarrow> marked \<Rightarrow> (string list \<times> stream_end) fetched \<Rightarrow> page \<Rightarrow> page" where
  "sendStreamingMessage JSON_parse marked_parse response p =
     (let sp0 = stream_begin p in
      case response of
        Rejected msg \<Rightarrow> stream_catch msg sp0
      | Response ok body \<Rightarrow>
          if \<not> ok then stream_catch ''Failed to get response'' sp0
          else (case body of (chunks, ending) \<Rightarrow>
                  (let sp1 = read_loop JSON_parse marked_parse chunks sp0 in
                   case ending of
                     Done \<Rightarrow> stream_finish sp1
                   | ReadFailed msg \<Rightarrow> stream_catch msg sp1)))"

section \<open>The non-streaming path (sendRegularMessage, lines 394-441)\<close>

text \<open>
  The object \<^verbatim>\<open>response.json()\<close> resolves to, read through the fields the function
  looks at. \<^verbatim>\<open>answer\<close> is a string, as the protocol has it.
\<close>

record query_json =
  detail :: "string option"
  answer :: string
  answer_sources :: "source list option"

text \<open>Lines 437-440: the handler.\<close>

definition regular_catch :: "nat \<Rightarrow> string \<Rightarrow> page \<Rightarrow> page" where
  "regular_catch loadingMessage msg p =
     snd (addMessage (''Error: '' @ msg) ''assistant'' False (remove_message loadingMessage p))"

text \<open>
  The body of a response is \<open>Inl msg\<close> when \<^verbatim>\<open>response.json()\<close> is rejected with
  that message, and \<open>Inr\<close> of the decoded object otherwise.
\<close>

definition sendRegularMessage :: "marked \<Rightarrow> (string + query_json) fetched \<Rightarrow> page \<Rightarrow> page" where
  "sendRegularMessage marked_parse response p =
     (let (loadingMessage, p0) = createLoadingMessage p in
      case response of
        Rejected msg \<Rightarrow> regular_catch loadingMessage msg p0
      | Response ok body \<Rightarrow>
          if \<not> ok then
            (case body of
               Inl msg \<Rightarrow> regular_catch loadingMessage msg p0
             | Inr error \<Rightarrow>
                 regular_catch loadingMessage (or_lit (detail error) ''Failed to get response'') p0)
          else
            (case body of
               Inl msg \<Rightarrow> regular_catch loadingMessage msg p0
             | Inr data \<Rightarrow>
                 (let p1 = remove_message loadingMessage p0;
                      formattedContent = marked_parse (answer data);
                      contentWithCitations = addInlineCitations formattedContent (answer_sources data);
                      (responseDiv, p2) = addMessage contentWithCitations ''assistant'' True p1;
                      p3 = displaySources (answer_sources data) p2
                  in p3\<lparr>messages := messages p3 @ [(''assistant'', answer data)]\<rparr>)))"

section \<open>Reading the rendered output\<close>

text \<open>
  The number a citation marker shows: the decimal digits between the last pair of square
  brackets of the marker.
\<close>

definition marker_digits :: "string \<Rightarrow> string" where
  "marker_digits m =
     rev (takeWhile (\<lambda>c. c \<noteq> CHR ''['') (drop 1 (dropWhile (\<lambda>c. c \<noteq> CHR '']'') (rev m))))"

definition decimal_value :: "string \<Rightarrow> nat" where
  "decimal_value ds = foldl (\<lambda>a c. 10 * a + (of_char c - 48)) 0 ds"

definition marker_number :: "string \<Rightarrow> nat" where
  "marker_number m = decimal_value (marker_digits m)"

text \<open>The content of the first message of the container with the given content element.\<close>

fun shown :: "nat \<Rightarrow> node list \<Rightarrow> content option" where
  "shown d [] = None"
| "shown d (Welcome # ns) = shown d ns"
| "shown d (Message j t c # ns) = (if d = j then Some c else shown d ns)"

text \<open>
  The text one line of a chunk adds to the accumulated answer: that of a content frame,
  nothing for any other line.
\<close>

definition line_text :: "json_parse \<Rightarrow> string \<Rightarrow> string" where
  "line_text JSON_parse line =
     (if startsWith line ''data: '' then
        (case JSON_parse (drop 6 line) of Some (ContentData t) \<Rightarrow> to_string t | _ \<Rightarrow> [])
      else [])"

text \<open>A chunk that holds the given lines whole, each closed by a newline.\<close>

definition chunk_of_lines :: "string list \<Rightarrow> string" where
  "chunk_of_lines ls = concat (map (\<lambda>l. l @ [CHR 0x0A]) ls)"

section \<open>Sample inputs\<close>

definition newline :: string where
  "newline = [CHR 0x0A]"

definition doc1 :: source where
  "doc1 = \<lparr>source = Some ''doc1.pdf'', url = None, title = None, author = None\<rparr>"

definition web1 :: source where
  "web1 = \<lparr>source = Some ''https://example.com/guide.html'', url = None, title = None, author = None\<rparr>"

text \<open>A source whose \<^verbatim>\<open>url\<close> field is present and empty.\<close>

definition blank_url :: source where
  "blank_url = \<lparr>source = Some ''doc2.pdf'', url = Some [], title = None, author = None\<rparr>"

text \<open>A page with the welcome block, an empty history and an empty, hidden sources panel.\<close>

definition fresh_page :: page where
  "fresh_page = \<lparr>sessionId = ''session-abc'', messages = [], container = [Welcome], next_id = 0,
                  sourcesList = Some [], sourcesSection = Some ''none'', console = []\<rparr>"

text \<open>
  A page after an earlier answer that had the source \<open>doc1\<close>: the question and the
  answer are in the conversation and the history, and the sources panel is visible.
\<close>

definition answered_page :: page where
  "answered_page =
     \<lparr>sessionId = ''session-abc'',
      messages = [(''user'', ''What is in doc1?''), (''assistant'', ''A guide.'')],
      container = [Message 0 ''user'' (Text ''What is in doc1?''), Message 2 ''assistant'' (Html ''A guide.'')],
      next_id = 3,
      sourcesList = Some [\<lparr>item_name = ''1. doc1.pdf'', item_link = None, item_author = None\<rparr>],
      sourcesSection = Some ''block'',
      console = []\<rparr>"

text \<open>Frames of the stream, as the lines that carry them.\<close>

definition frame_metadata :: string where
  "frame_metadata = ''data: {\"type\":\"metadata\",\"sources\":[{\"source\":\"doc1.pdf\"}]}''"

definition frame_no_sources :: string where
  "frame_no_sources = ''data: {\"type\":\"metadata\",\"sources\":[]}''"

definition frame_hel :: string where
  "frame_hel = ''data: {\"type\":\"content\",\"text\":\"Hel\"}''"

definition frame_hello :: string where
  "frame_hello = ''data: {\"type\":\"content\",\"text\":\"Hello\"}''"

definition frame_world :: string where
  "frame_world = ''data: {\"type\":\"content\",\"text\":\" world\"}''"

definition frame_boom :: string where
  "frame_boom = ''data: {\"type\":\"error\",\"message\":\"boom\"}''"

definition frame_malformed :: string where
  "frame_malformed = ''data: {not json''"

text \<open>The body of a failed request whose \<^verbatim>\<open>detail\<close> is the empty string, and one with a text.\<close>

definition empty_detail :: query_json where
  "empty_detail = \<lparr>detail = Some [], answer = [], answer_sources = None\<rparr>"

definition quota_detail :: query_json where
  "quota_detail = \<lparr>detail = Some ''Quota exceeded'', answer = [], answer_sources = None\<rparr>"

text \<open>
  The cycle after a metadata frame with the source \<open>doc1\<close> has arrived on a fresh page:
  the loading dots (element 0) have given way to the empty response element (element 1).
\<close>

definition metadata_state :: stream_state where
  "metadata_state = \<lparr>loadingDiv = 0, fullResponse = [], sources = [doc1], responseDiv = Some 1,
                      hasCreatedResponseDiv = True\<rparr>"

definition metadata_page :: page where
  "metadata_page = fresh_page\<lparr>container := [Message 1 ''assistant'' (Text [])], next_id := 2\<rparr>"

text \<open>
  \<^verbatim>\<open>JSON.parse\<close> on the payloads of the sample frames. Any other text used with it below
  is not JSON, and the built-in raises on it.
\<close>

definition sample_parse :: json_parse where
  "sample_parse s =
     (if s = ''{\"type\":\"metadata\",\"sources\":[{\"source\":\"doc1.pdf\"}]}'' then Some (Metadata (Some [doc1]))
      else if s = ''{\"type\":\"metadata\",\"sources\":[]}'' then Some (Metadata (Some []))
      else if s = ''{\"type\":\"content\",\"text\":\"Hel\"}'' then Some (ContentData (Some ''Hel''))
      else if s = ''{\"type\":\"content\",\"text\":\"Hello\"}'' then Some (ContentData (Some ''Hello''))
      else if s = ''{\"type\":\"content\",\"text\":\" world\"}'' then Some (ContentData (Some '' world''))
      else if s = ''{\"type\":\"error\",\"message\":\"boom\"}'' then Some (ErrorData (Some ''boom''))
      else None)"

section \<open>Properties of the string functions\<close>

lemma split_no_sep: "c \<notin> set a \<Longrightarrow> split c a = [a]"
  by (induction a) auto

lemma split_line: "c \<notin> set a \<Longrightarrow> split c (a @ c # rest) = a # split c rest"
  by (induction a) auto

lemma digit_value: "d < 10 \<Longrightarrow> of_char (digit d) = 48 + d"
  by (simp add: digit_def)

lemma digit_not_bracket: "d < 10 \<Longrightarrow> digit d \<noteq> CHR ''['' \<and> digit d \<noteq> CHR '']''"
  using digit_value [of d] by auto

lemma decimal_value_snoc: "decimal_value (ds @ [c]) = 10 * decimal_value ds + (of_char c - 48)"
  by (simp add: decimal_value_def)

text \<open>The digits of a number read back as that number.\<close>

lemma decimal_value_number_string: "decimal_value (number_string n) = n"
proof (induction n rule: number_string.induct)
  case (1 n)
  show ?case
  proof (cases "n < 10")
    case True
    then show ?thesis
      by (simp add: number_string.simps [of n] decimal_value_def digit_value)
  next
    case False
    with 1 have "decimal_value (number_string (n div 10)) = n div 10" by simp
    with False show ?thesis
      by (simp add: number_string.simps [of n] decimal_value_snoc digit_value)
  qed
qed

lemma number_string_digits: "c \<in> set (number_string n) \<Longrightarrow> c \<noteq> CHR ''['' \<and> c \<noteq> CHR '']''"
proof (induction n rule: number_string.induct)
  case (1 n)
  show ?case
  proof (cases "n < 10")
    case True
    with 1(2) show ?thesis
      by (simp add: number_string.simps [of n] digit_not_bracket)
  next
    case False
    with 1 show ?thesis
      by (auto simp add: number_string.simps [of n] digit_not_bracket)
  qed
qed

lemma marker_digits_eq:
  assumes "\<forall>c\<in>set ds. c \<noteq> CHR ''['' \<and> c \<noteq> CHR '']''" and "CHR '']'' \<notin> set post"
  shows "marker_digits (pre @ CHR ''['' # ds @ CHR '']'' # post) = ds"
proof -
  have 1: "dropWhile (\<lambda>c. c \<noteq> CHR '']'') (rev post @ CHR '']'' # rev ds @ CHR ''['' # rev pre)
           = CHR '']'' # rev ds @ CHR ''['' # rev pre"
    using assms(2) by (auto simp add: dropWhile_append3)
  have 2: "takeWhile (\<lambda>c. c \<noteq> CHR ''['') (rev ds @ CHR ''['' # rev pre) = rev ds"
    using assms(1) by (simp add: takeWhile_tail)
  show ?thesis
    using 1 2 by (simp add: marker_digits_def)
qed

section \<open>Properties of the citation renderer\<close>

lemma length_citations_from: "length (citations_from i ss) = length ss"
  by (induction ss arbitrary: i) auto

lemma nth_citations_from: "k < length ss \<Longrightarrow> citations_from i ss ! k = citation (ss ! k) (i + k)"
  by (induction ss arbitrary: i k) (auto simp: nth_Cons split: nat.splits)

lemma citation_nonempty: "citation s i \<noteq> []"
  by (simp add: citation_def Let_def)

lemma join_nonempty: "x \<noteq> [] \<Longrightarrow> join sep (x # xs) \<noteq> []"
  by (cases xs) auto

lemma marker_number_citation: "marker_number (citation s i) = i + 1"
proof -
  let ?ds = "number_string (i + 1)"
  have d: "\<forall>c\<in>set ?ds. c \<noteq> CHR ''['' \<and> c \<noteq> CHR '']''"
    using number_string_digits by blast
  show ?thesis
  proof (cases "has_link s")
    case True
    have "marker_digits ((''<a href=\"'' @ link_url s @
        ''\" target=\"_blank\" rel=\"noopener noreferrer\" class=\"citation-link\" title=\"'' @
        link_title s @ ''\">'') @ CHR ''['' # ?ds @ CHR '']'' # ''</a>'') = ?ds"
      by (rule marker_digits_eq [OF d]) simp
    with True show ?thesis
      by (simp add: citation_def marker_number_def decimal_value_number_string)
  next
    case False
    have "marker_digits (''<span class=\"citation-number\">'' @ CHR ''['' # ?ds @ CHR '']'' # ''</span>'') = ?ds"
      by (rule marker_digits_eq [OF d]) simp
    with False show ?thesis
      by (simp add: citation_def marker_number_def decimal_value_number_string)
  qed
qed

lemma map_marker_number: "map marker_number (citations_from i ss) = [i + 1 ..< i + 1 + length ss]"
proof (induction ss arbitrary: i)
  case Nil
  then show ?case by simp
next
  case (Cons s ss)
  have "[i + 1 ..< i + 1 + length (s # ss)] = (i + 1) # [Suc i + 1 ..< Suc i + 1 + length ss]"
    by (simp add: upt_rec)
  with Cons [of "Suc i"] show ?case
    by (simp add: marker_number_citation)
qed

text \<open>With at least one source, the output is the body, a space and the joined markers.\<close>

lemma addInlineCitations_block:
  "ss \<noteq> [] \<Longrightarrow> addInlineCitations body (Some ss) = body @ '' '' @ join '' '' (citations_from 0 ss)"
  by (cases ss) (simp_all add: addInlineCitations_def Let_def join_nonempty citation_nonempty)

text \<open>
  Claim C5. For a non-empty source list of length N the citation renderer appends the
  body, a space and exactly N markers; the marker at position k shows the number k + 1, so
  the markers are numbered 1..N in list order; and the appended block is the same whatever
  the body is, so the numbering does not change as the accumulated text grows.
\<close>

theorem citation_markers_numbered:
  assumes "ss \<noteq> []"
  shows "addInlineCitations body (Some ss) = body @ '' '' @ join '' '' (citations_from 0 ss)
       \<and> length (citations_from 0 ss) = length ss
       \<and> map marker_number (citations_from 0 ss) = [1 ..< Suc (length ss)]
       \<and> (\<forall>k < length ss. citations_from 0 ss ! k = citation (ss ! k) k
                           \<and> marker_number (citation (ss ! k) k) = k + 1)
       \<and> drop (length body) (addInlineCitations body (Some ss))
           = drop (length longer) (addInlineCitations longer (Some ss))"
proof -
  have a: "addInlineCitations b (Some ss) = b @ '' '' @ join '' '' (citations_from 0 ss)" for b
    using assms by (rule addInlineCitations_block)
  have n: "map marker_number (citations_from 0 ss) = [1 ..< Suc (length ss)]"
    using map_marker_number [of 0 ss] by simp
  have k: "\<forall>k < length ss. citations_from 0 ss ! k = citation (ss ! k) k
                           \<and> marker_number (citation (ss ! k) k) = k + 1"
    by (simp add: nth_citations_from marker_number_citation)
  show ?thesis
    using a n k by (simp add: length_citations_from)
qed

theorem citation_markers_numbered_witness:
  "[doc1, web1] \<noteq> []
   \<and> addInlineCitations ''<p>Hi</p>'' (Some [doc1, web1])
       = ''<p>Hi</p> <span class=\"citation-number\">[1]</span> <a href=\"https://example.com/guide.html\" target=\"_blank\" rel=\"noopener noreferrer\" class=\"citation-link\" title=\"guide.html\">[2]</a>''
   \<and> map marker_number (citations_from 0 [doc1, web1]) = [1, 2]"
proof -
  have h: "[doc1, web1] \<noteq> []" by simp
  have c: "join '' '' (citations_from 0 [doc1, web1])
     = ''<span class=\"citation-number\">[1]</span> <a href=\"https://example.com/guide.html\" target=\"_blank\" rel=\"noopener noreferrer\" class=\"citation-link\" title=\"guide.html\">[2]</a>''"
    by code_simp
  have u: "[1 ..< Suc (length [doc1, web1])] = [1, 2::nat]" by code_simp
  show ?thesis
    using citation_markers_numbered [OF h, of "''<p>Hi</p>''"] c u by simp
qed

text \<open>
  Claim C8. A render writes into the response element the markup derived from the current
  text and sources, replacing what the element held: rendering again from the unchanged
  state changes nothing, and what an earlier render (from a shorter text or another source
  list) wrote leaves no trace in the result, so markers never pile up.
\<close>

theorem render_is_idempotent:
  "render marked_parse (render marked_parse sp) = render marked_parse sp
   \<and> snd (render marked_parse (st, snd (render marked_parse (st\<lparr>fullResponse := t0, sources := s0\<rparr>, p))))
       = snd (render marked_parse (st, p))"
proof -
  have m: "map (set_html d h) (map (set_html d h') ns) = map (set_html d h) ns" for d h h' ns
  proof (induction ns)
    case Nil
    then show ?case by simp
  next
    case (Cons n ns)
    then show ?case by (cases n) simp_all
  qed
  have s: "set_innerHTML d h (set_innerHTML d h' q) = set_innerHTML d h q" for d h h' q
    by (simp add: set_innerHTML_def m del: map_map)
  show ?thesis
    by (cases sp) (simp add: render_def Let_def s split: option.splits)
qed

text \<open>
  Claim C9, as stated, fails: a source whose \<^verbatim>\<open>url\<close> field is present but empty,
  and whose locator does not start with http, gets a plain bracketed number.
\<close>

theorem blank_url_not_linked:
  "url blank_url \<noteq> None
   \<and> citation blank_url 0 = ''<span class=\"citation-number\">[1]</span>''"
  by code_simp

text \<open>
  Claim C9, amended. The marker of a source is a hyperlink exactly when its \<^verbatim>\<open>url\<close>
  field is present and not empty, or its locator starts with http; otherwise it is a plain
  bracketed number. The markers are appended once, as one block after the body.
\<close>

theorem citation_link_iff_truthy:
  "((\<exists>u. url s = Some u \<and> u \<noteq> []) \<or> (\<exists>l. source s = Some l \<and> startsWith l ''http'') \<longrightarrow>
      citation s i =
        ''<a href=\"'' @ (case url s of Some u \<Rightarrow> if u \<noteq> [] then u else the (source s)
                          | None \<Rightarrow> the (source s)) @
        ''\" target=\"_blank\" rel=\"noopener noreferrer\" class=\"citation-link\" title=\"'' @
        link_title s @ ''\">['' @ number_string (i + 1) @ '']</a>'')
   \<and> (\<not> ((\<exists>u. url s = Some u \<and> u \<noteq> []) \<or> (\<exists>l. source s = Some l \<and> startsWith l ''http'')) \<longrightarrow>
      citation s i = ''<span class=\"citation-number\">['' @ number_string (i + 1) @ '']</span>'')
   \<and> (ss \<noteq> [] \<longrightarrow>
      addInlineCitations body (Some ss) = body @ '' '' @ join '' '' (citations_from 0 ss))"
proof -
  have l: "has_link s \<longleftrightarrow>
      ((\<exists>u. url s = Some u \<and> u \<noteq> []) \<or> (\<exists>l. source s = Some l \<and> startsWith l ''http''))"
    by (auto simp add: has_link_def truthy_def startsWith_def split: option.splits)
  have u: "has_link s \<Longrightarrow> link_url s =
      (case url s of Some u \<Rightarrow> if u \<noteq> [] then u else the (source s) | None \<Rightarrow> the (source s))"
    by (auto simp add: has_link_def link_url_def or_else_def truthy_def split: option.splits)
  show ?thesis
    using l u addInlineCitations_block [of ss body]
    by (simp add: citation_def Let_def)
qed

theorem citation_link_iff_truthy_witness:
  "citation web1 1 = ''<a href=\"https://example.com/guide.html\" target=\"_blank\" rel=\"noopener noreferrer\" class=\"citation-link\" title=\"guide.html\">[2]</a>''
   \<and> citation doc1 0 = ''<span class=\"citation-number\">[1]</span>''"
proof -
  have n: "number_string (1 + 1) = ''2''" "number_string (0 + 1) = ''1''" by code_simp+
  have t: "link_title web1 = ''guide.html''" by code_simp
  have w: "(\<exists>u. url web1 = Some u \<and> u \<noteq> []) \<or> (\<exists>l. source web1 = Some l \<and> startsWith l ''http'')"
    by (simp add: web1_def startsWith_def)
  have d: "\<not> ((\<exists>u. url doc1 = Some u \<and> u \<noteq> []) \<or> (\<exists>l. source doc1 = Some l \<and> startsWith l ''http''))"
    by (simp add: doc1_def startsWith_def)
  have uw: "url web1 = None" "source web1 = Some ''https://example.com/guide.html''"
    by (simp_all add: web1_def)
  show ?thesis
    using citation_link_iff_truthy [of web1 1] citation_link_iff_truthy [of doc1 0] n t w d uw
    by simp
qed

section \<open>Properties of the two request paths\<close>

lemma last_container_addMessage:
  "last (container (snd (addMessage c t h p))) = Message (next_id p) t (if h then Html c else Text c)"
  by (simp add: addMessage_def Let_def)

lemma next_id_remove_message: "next_id (remove_message i p) = next_id p"
  by (simp add: remove_message_def)

lemma next_id_createLoadingMessage:
  "createLoadingMessage p = (d, p1) \<Longrightarrow> next_id p1 = Suc (next_id p)"
  by (auto simp add: createLoadingMessage_def addMessage_def Let_def)

text \<open>
  Claim C10, as stated, fails on the non-streaming path: a failed request whose
  \<^verbatim>\<open>detail\<close> is present but empty shows the generic text.
\<close>

theorem empty_detail_falls_back:
  "detail empty_detail \<noteq> None
   \<and> last (container (sendRegularMessage id (Response False (Inr empty_detail)) fresh_page))
       = Message 1 ''assistant'' (Text ''Error: Failed to get response'')"
  by (simp add: sendRegularMessage_def createLoadingMessage_def addMessage_def regular_catch_def
      remove_message_def empty_detail_def fresh_page_def or_lit_def Let_def)

text \<open>
  Claim C10, amended. On a response that is not ok the streaming path appends the message
  "Error: Failed to get response" whatever the body holds; the non-streaming path, when the
  body decodes, appends "Error: " followed by the \<^verbatim>\<open>detail\<close> text when that is present
  and not empty, and by the same generic text when it is absent or empty.
\<close>

theorem failed_request_messages:
  "last (container (sendStreamingMessage JSON_parse marked_parse (Response False body) p))
     = Message (Suc (next_id p)) ''assistant'' (Text ''Error: Failed to get response'')
   \<and> last (container (sendRegularMessage marked_parse (Response False (Inr data)) p))
     = Message (Suc (next_id p)) ''assistant''
         (Text (''Error: '' @ (case detail data of
                                  Some d \<Rightarrow> if d \<noteq> [] then d else ''Failed to get response''
                                | None \<Rightarrow> ''Failed to get response'')))"
proof -
  have s: "last (container (stream_catch msg (stream_begin p)))
      = Message (Suc (next_id p)) ''assistant'' (Text (''Error: '' @ msg))" for msg
    by (simp add: stream_catch_def stream_begin_def last_container_addMessage
        next_id_remove_message next_id_createLoadingMessage split: prod.splits)
  have r: "last (container (sendRegularMessage marked_parse (Response False (Inr data)) p))
      = Message (Suc (next_id p)) ''assistant''
          (Text (''Error: '' @ or_lit (detail data) ''Failed to get response''))"
    by (simp add: next_id_createLoadingMessage sendRegularMessage_def regular_catch_def last_container_addMessage
        next_id_remove_message split: prod.splits)
  show ?thesis
    using s [of "''Failed to get response''"] r
    by (simp add: sendStreamingMessage_def Let_def or_lit_def)
qed

theorem failed_request_messages_witness:
  "last (container (sendStreamingMessage sample_parse id (Response False ([], Done)) fresh_page))
     = Message 1 ''assistant'' (Text ''Error: Failed to get response'')
   \<and> last (container (sendRegularMessage id (Response False (Inr quota_detail)) fresh_page))
     = Message 1 ''assistant'' (Text ''Error: Quota exceeded'')"
  using failed_request_messages [of sample_parse id "([], Done)" fresh_page quota_detail]
  by (simp add: fresh_page_def quota_detail_def)

text \<open>
  Claim C1 does not hold of the code. The error raised for an error frame (line 523) is
  caught by the handler of the same line (lines 525-527): the frame only adds a console
  entry, reading goes on, and at the end of the stream the partial text is committed to
  the history, with no error message in the conversation.
\<close>

theorem error_frame_is_swallowed:
  "sendStreamingMessage sample_parse marked_parse
     (Response True ([frame_hel @ newline, frame_boom @ newline], Done)) fresh_page
   = fresh_page\<lparr>messages := [(''assistant'', ''Hel'')],
                container := [Message 1 ''assistant'' (Html (marked_parse ''Hel''))],
                next_id := 2,
                console := [FailedToParse (Error ''boom'')]\<rparr>"
  by (simp add: sendStreamingMessage_def stream_begin_def createLoadingMessage_def addMessage_def
      process_chunk_def process_line_def startsWith_def create_response_div_def render_def
      remove_message_def set_innerHTML_def stream_finish_def displaySourcesWithReferences_def
      addInlineCitations_def to_string_def error_message_def
      frame_hel_def frame_boom_def newline_def sample_parse_def fresh_page_def Let_def)

section \<open>Properties of the read loop\<close>

text \<open>
  The accumulated text after a run of the loop is the text before it followed by the texts
  of the lines of the chunks, each chunk split on its own.
\<close>

lemma fst_create_response_div:
  "fullResponse (fst (create_response_div sp)) = fullResponse (fst sp)
   \<and> sources (fst (create_response_div sp)) = sources (fst sp)
   \<and> loadingDiv (fst (create_response_div sp)) = loadingDiv (fst sp)"
  by (cases sp) (simp add: create_response_div_def Let_def split: prod.splits)

lemma fst_render: "fst (render marked_parse sp) = fst sp"
  by (cases sp) (simp add: render_def Let_def split: option.splits)

lemma fullResponse_handle_data:
  "fullResponse (fst (handle_data marked_parse d sp)) =
     fullResponse (fst sp) @ (case d of Some (ContentData t) \<Rightarrow> to_string t | _ \<Rightarrow> [])"
proof (cases sp)
  case (Pair st p)
  show ?thesis
  proof (cases d)
    case None
    with Pair show ?thesis by simp
  next
    case (Some x)
    show ?thesis
    proof (cases x)
      case (ContentData t)
      obtain st1 p1 where c: "create_response_div (st, p) = (st1, p1)"
        by (cases "create_response_div (st, p)")
      have "fullResponse st1 = fullResponse st"
        using fst_create_response_div [of "(st, p)"] c by simp
      with Pair Some ContentData c show ?thesis
        by (simp add: fst_render)
    next
      case (Metadata srcs)
      with Pair Some show ?thesis
        using fst_create_response_div [of "(st\<lparr>sources := (case srcs of None \<Rightarrow> [] | Some ss \<Rightarrow> ss)\<rparr>, p)"]
        by simp
    qed (use Pair Some in simp_all)
  qed
qed

lemma fullResponse_process_line:
  "fullResponse (fst (process_line JSON_parse marked_parse l sp)) =
     fullResponse (fst sp) @ line_text JSON_parse l"
  by (simp add: process_line_def line_text_def fullResponse_handle_data)

lemma fullResponse_process_lines:
  "fullResponse (fst (process_lines JSON_parse marked_parse ls sp)) =
     fullResponse (fst sp) @ concat (map (line_text JSON_parse) ls)"
  by (induction ls arbitrary: sp) (simp_all add: fullResponse_process_line)

lemma fullResponse_read_loop:
  "fullResponse (fst (read_loop JSON_parse marked_parse chunks sp)) =
     fullResponse (fst sp) @
     concat (map (line_text JSON_parse) (concat (map (split (CHR 0x0A)) chunks)))"
  by (induction chunks arbitrary: sp)
     (simp_all add: process_chunk_def fullResponse_process_lines)

lemma split_chunk_of_lines:
  "\<forall>l\<in>set ls. CHR 0x0A \<notin> set l \<Longrightarrow> split (CHR 0x0A) (chunk_of_lines ls) = ls @ [[]]"
  by (induction ls) (simp_all add: chunk_of_lines_def split_line)

lemma line_text_empty: "line_text JSON_parse [] = []"
  by (simp add: line_text_def startsWith_def)

lemma texts_of_aligned_chunks:
  "\<forall>l\<in>set (concat lss). CHR 0x0A \<notin> set l \<Longrightarrow>
   concat (map (line_text JSON_parse) (concat (map (split (CHR 0x0A)) (map chunk_of_lines lss))))
   = concat (map (line_text JSON_parse) (concat lss))"
  by (induction lss) (simp_all add: split_chunk_of_lines line_text_empty)

lemma messages_create_response_div:
  "messages (snd (create_response_div sp)) = messages (snd sp)"
  by (cases sp)
     (simp add: create_response_div_def addMessage_def remove_message_def Let_def split: prod.splits)

lemma messages_render: "messages (snd (render marked_parse sp)) = messages (snd sp)"
  by (cases sp) (simp add: render_def set_innerHTML_def Let_def split: option.splits)

lemma messages_handle_data:
  "messages (snd (handle_data marked_parse d sp)) = messages (snd sp)"
proof (cases sp)
  case (Pair st p)
  show ?thesis
  proof (cases d)
    case None
    with Pair show ?thesis by simp
  next
    case (Some x)
    with Pair show ?thesis
      by (cases x)
         (simp_all add: messages_create_response_div messages_render split: prod.splits,
          metis messages_create_response_div snd_conv)
  qed
qed

lemma messages_process_lines:
  "messages (snd (process_lines JSON_parse marked_parse ls sp)) = messages (snd sp)"
  by (induction ls arbitrary: sp) (simp_all add: process_line_def messages_handle_data)

lemma messages_read_loop:
  "messages (snd (read_loop JSON_parse marked_parse chunks sp)) = messages (snd sp)"
  by (induction chunks arbitrary: sp) (simp_all add: process_chunk_def messages_process_lines)

lemma messages_stream_finish:
  "messages (stream_finish sp) = messages (snd sp) @ [(''assistant'', fullResponse (fst sp))]"
  by (cases sp) (simp add: stream_finish_def displaySourcesWithReferences_def Let_def split: option.splits)

lemma stream_begin_facts:
  "messages (snd (stream_begin p)) = messages p \<and> fullResponse (fst (stream_begin p)) = []"
  by (simp add: stream_begin_def createLoadingMessage_def addMessage_def Let_def)

text \<open>
  Claim C2, as stated, fails: a chunk boundary inside a frame loses the frame. The first
  piece does not parse and the second does not start with the marker, so the same stream
  gives "Hello" when it arrives in one chunk and the empty text when it arrives in two.
\<close>

theorem split_frame_is_lost:
  "concat [''data: {\"type\":\"content\",\"te'', ''xt\":\"Hello\"}'' @ newline] = frame_hello @ newline
   \<and> fullResponse (fst (read_loop sample_parse id [frame_hello @ newline] (stream_begin fresh_page)))
       = ''Hello''
   \<and> fullResponse (fst (read_loop sample_parse id
         [''data: {\"type\":\"content\",\"te'', ''xt\":\"Hello\"}'' @ newline] (stream_begin fresh_page)))
       = []"
  unfolding fullResponse_read_loop
  by (simp add: stream_begin_facts line_text_def startsWith_def
      sample_parse_def frame_hello_def newline_def to_string_def)

text \<open>
  Claim C2, amended. When every chunk holds whole lines, the final accumulated text, which
  is also the text committed to the history, is the concatenation in arrival order of the
  texts of the content frames among the lines, however the lines are grouped into chunks.
  \<open>line_text\<close> is the text a line carries; for lines that are all content frames the
  list of these texts is the list of the frames' texts.
\<close>

theorem aligned_chunks_accumulate:
  assumes "\<forall>l\<in>set (concat lss). CHR 0x0A \<notin> set l"
  shows "fullResponse (fst (read_loop JSON_parse marked_parse (map chunk_of_lines lss) (st, p)))
           = fullResponse st @ concat (map (line_text JSON_parse) (concat lss))
       \<and> messages (sendStreamingMessage JSON_parse marked_parse
                     (Response True (map chunk_of_lines lss, Done)) p)
           = messages p @ [(''assistant'', concat (map (line_text JSON_parse) (concat lss)))]
       \<and> ((\<forall>f\<in>set frames. startsWith (fst f) ''data: ''
                \<and> JSON_parse (drop 6 (fst f)) = Some (ContentData (Some (snd f)))) \<longrightarrow>
            map (line_text JSON_parse) (map fst frames) = map snd frames)"
proof -
  have t: "concat (map (line_text JSON_parse) (concat (map (split (CHR 0x0A)) (map chunk_of_lines lss))))
      = concat (map (line_text JSON_parse) (concat lss))"
    using assms by (rule texts_of_aligned_chunks)
  have a: "fullResponse (fst (read_loop JSON_parse marked_parse (map chunk_of_lines lss) sp))
      = fullResponse (fst sp) @ concat (map (line_text JSON_parse) (concat lss))" for sp
    using t by (simp add: fullResponse_read_loop)
  have b: "messages (sendStreamingMessage JSON_parse marked_parse
                     (Response True (map chunk_of_lines lss, Done)) p)
      = messages p @ [(''assistant'', concat (map (line_text JSON_parse) (concat lss)))]"
    by (simp add: sendStreamingMessage_def Let_def messages_stream_finish messages_read_loop a
        stream_begin_facts)
  have c: "(\<forall>f\<in>set frames. startsWith (fst f) ''data: ''
                \<and> JSON_parse (drop 6 (fst f)) = Some (ContentData (Some (snd f)))) \<longrightarrow>
            map (line_text JSON_parse) (map fst frames) = map snd frames"
    by (induction frames) (simp_all add: line_text_def to_string_def)
  show ?thesis
    using a [of "(st, p)"] b c by simp
qed

theorem aligned_chunks_accumulate_witness:
  "CHR 0x0A \<notin> set frame_metadata \<and> CHR 0x0A \<notin> set frame_hello \<and> CHR 0x0A \<notin> set frame_world
   \<and> messages (sendStreamingMessage sample_parse id
        (Response True ([frame_metadata @ newline @ frame_hello @ newline, frame_world @ newline], Done))
        fresh_page)
     = [(''assistant'', ''Hello world'')]"
proof -
  have h: "\<forall>l\<in>set (concat [[frame_metadata, frame_hello], [frame_world]]). CHR 0x0A \<notin> set l"
    by (simp add: frame_metadata_def frame_hello_def frame_world_def)
  have c: "map chunk_of_lines [[frame_metadata, frame_hello], [frame_world]]
      = [frame_metadata @ newline @ frame_hello @ newline, frame_world @ newline]"
    by (simp add: chunk_of_lines_def newline_def)
  have t: "concat (map (line_text sample_parse) (concat [[frame_metadata, frame_hello], [frame_world]]))
      = ''Hello world''"
    by (simp add: line_text_def startsWith_def sample_parse_def to_string_def
        frame_metadata_def frame_hello_def frame_world_def)
  have m: "messages fresh_page = []"
    by (simp add: fresh_page_def)
  have n: "CHR 0x0A \<notin> set frame_metadata \<and> CHR 0x0A \<notin> set frame_hello \<and> CHR 0x0A \<notin> set frame_world"
    using h by simp
  show ?thesis
    using n aligned_chunks_accumulate [OF h, of sample_parse id _ fresh_page] c t m by simp
qed

text \<open>
  Chunks that hold whole lines are read as the sequence of all their lines, and the lines
  without the marker can be left out.
\<close>

lemma process_lines_append:
  "process_lines JSON_parse marked_parse (xs @ ys) sp
     = process_lines JSON_parse marked_parse ys (process_lines JSON_parse marked_parse xs sp)"
  by (induction xs arbitrary: sp) simp_all

lemma process_line_empty: "process_line JSON_parse marked_parse [] sp = sp"
  by (simp add: process_line_def startsWith_def)

lemma process_chunk_of_lines:
  assumes "\<forall>l\<in>set ls. CHR 0x0A \<notin> set l"
  shows "process_chunk JSON_parse marked_parse (chunk_of_lines ls) sp
           = process_lines JSON_parse marked_parse ls sp"
  using split_chunk_of_lines [OF assms]
  by (simp add: process_chunk_def process_lines_append process_line_empty)

lemma read_loop_aligned:
  "\<forall>l\<in>set (concat lss). CHR 0x0A \<notin> set l \<Longrightarrow>
   read_loop JSON_parse marked_parse (map chunk_of_lines lss) sp
     = process_lines JSON_parse marked_parse (concat lss) sp"
proof (induction lss arbitrary: sp)
  case Nil
  then show ?case by simp
next
  case (Cons ls lss)
  have a: "\<forall>l\<in>set ls. CHR 0x0A \<notin> set l" and b: "\<forall>l\<in>set (concat lss). CHR 0x0A \<notin> set l"
    using Cons.prems by simp_all
  show ?case
    using Cons.IH [OF b] by (simp add: process_chunk_of_lines [OF a] process_lines_append)
qed

lemma process_lines_filter:
  "process_lines JSON_parse marked_parse (filter (\<lambda>l. startsWith l ''data: '') ls) sp
     = process_lines JSON_parse marked_parse ls sp"
  by (induction ls arbitrary: sp) (simp_all add: process_line_def)

text \<open>
  Claim C6, as stated, fails: it speaks of every stream, and a stream whose chunk boundary
  falls inside the first content frame loses that frame. The lines are a content frame
  "Hello", a malformed line and a content frame " world"; in one chunk the accumulated text
  is "Hello world", split inside the first frame it is " world".
\<close>

theorem malformed_stream_split_loses_frame:
  "concat [''data: {\"type\":\"content\",\"te'',
           ''xt\":\"Hello\"}'' @ newline @ frame_malformed @ newline @ frame_world @ newline]
     = chunk_of_lines [frame_hello, frame_malformed, frame_world]
   \<and> fullResponse (fst (read_loop sample_parse id
         [chunk_of_lines [frame_hello, frame_malformed, frame_world]] (stream_begin fresh_page)))
       = ''Hello world''
   \<and> fullResponse (fst (read_loop sample_parse id
         [''data: {\"type\":\"content\",\"te'',
          ''xt\":\"Hello\"}'' @ newline @ frame_malformed @ newline @ frame_world @ newline]
         (stream_begin fresh_page)))
       = '' world''"
  unfolding fullResponse_read_loop
  by (simp add: stream_begin_facts line_text_def startsWith_def chunk_of_lines_def
      sample_parse_def frame_hello_def frame_malformed_def frame_world_def newline_def to_string_def)

text \<open>
  Claim C6, amended. In every stream delivered in chunks of whole lines, however the lines
  are grouped into chunks, a line with the marker that does not parse, standing between two
  content frames, adds a console entry and nothing else: the read loop is the second content
  handler applied after the console entry after the first content handler, between the
  lines before and the lines after; the accumulated text, and the text committed to the
  history, hold the first text followed by the second. Lines without the marker have no
  effect: the loop over the stream with these lines left out gives the same result.
\<close>

theorem malformed_line_skipped_in_stream:
  assumes "\<forall>l\<in>set (concat lss). CHR 0x0A \<notin> set l"
    and "concat lss = pre @ [l1, bad, l2] @ post"
    and "startsWith l1 ''data: ''" and "JSON_parse (drop 6 l1) = Some (ContentData (Some t1))"
    and "startsWith bad ''data: ''" and "JSON_parse (drop 6 bad) = None"
    and "startsWith l2 ''data: ''" and "JSON_parse (drop 6 l2) = Some (ContentData (Some t2))"
  shows "read_loop JSON_parse marked_parse (map chunk_of_lines lss) (st, p)
           = process_lines JSON_parse marked_parse post
               (handle_data marked_parse (Some (ContentData (Some t2)))
                 (handle_data marked_parse None
                   (handle_data marked_parse (Some (ContentData (Some t1)))
                     (process_lines JSON_parse marked_parse pre (st, p)))))
       \<and> fullResponse (fst (read_loop JSON_parse marked_parse (map chunk_of_lines lss) (st, p)))
           = fullResponse st @ concat (map (line_text JSON_parse) pre) @ t1 @ t2
               @ concat (map (line_text JSON_parse) post)
       \<and> messages (sendStreamingMessage JSON_parse marked_parse
                     (Response True (map chunk_of_lines lss, Done)) p)
           = messages p @ [(''assistant'', concat (map (line_text JSON_parse) pre) @ t1 @ t2
                               @ concat (map (line_text JSON_parse) post))]
       \<and> process_line JSON_parse marked_parse bad (st, p)
           = (st, p\<lparr>console := console p @ [FailedToParse SyntaxError]\<rparr>)
       \<and> read_loop JSON_parse marked_parse
             (map chunk_of_lines (map (filter (\<lambda>l. startsWith l ''data: '')) lss)) (st, p)
           = read_loop JSON_parse marked_parse (map chunk_of_lines lss) (st, p)"
proof -
  have r: "read_loop JSON_parse marked_parse (map chunk_of_lines lss) sp
      = process_lines JSON_parse marked_parse (pre @ [l1, bad, l2] @ post) sp" for sp
    using read_loop_aligned [OF assms(1)] assms(2) by simp
  have one: "read_loop JSON_parse marked_parse (map chunk_of_lines lss) (st, p)
           = process_lines JSON_parse marked_parse post
               (handle_data marked_parse (Some (ContentData (Some t2)))
                 (handle_data marked_parse None
                   (handle_data marked_parse (Some (ContentData (Some t1)))
                     (process_lines JSON_parse marked_parse pre (st, p)))))"
    using assms(3-8) by (simp only: r process_lines_append process_lines.simps process_line_def if_True)
  have lt: "line_text JSON_parse l1 = t1" "line_text JSON_parse bad = []" "line_text JSON_parse l2 = t2"
    using assms(3-8) by (simp_all add: line_text_def to_string_def)
  have two: "fullResponse (fst (read_loop JSON_parse marked_parse (map chunk_of_lines lss) sp))
           = fullResponse (fst sp) @ concat (map (line_text JSON_parse) pre) @ t1 @ t2
               @ concat (map (line_text JSON_parse) post)" for sp
    by (simp only: r fullResponse_process_lines) (simp add: lt)
  have three: "messages (sendStreamingMessage JSON_parse marked_parse
                     (Response True (map chunk_of_lines lss, Done)) p)
           = messages p @ [(''assistant'', concat (map (line_text JSON_parse) pre) @ t1 @ t2
                               @ concat (map (line_text JSON_parse) post))]"
    by (simp add: sendStreamingMessage_def Let_def messages_stream_finish messages_read_loop two
        stream_begin_facts)
  have four: "process_line JSON_parse marked_parse bad (st, p)
           = (st, p\<lparr>console := console p @ [FailedToParse SyntaxError]\<rparr>)"
    using assms(5,6) by (simp add: process_line_def)
  have f: "\<forall>l\<in>set (concat (map (filter (\<lambda>l. startsWith l ''data: '')) lss)). CHR 0x0A \<notin> set l"
    using assms(1) by auto
  have five: "read_loop JSON_parse marked_parse
             (map chunk_of_lines (map (filter (\<lambda>l. startsWith l ''data: '')) lss)) (st, p)
           = read_loop JSON_parse marked_parse (map chunk_of_lines lss) (st, p)"
    by (simp only: read_loop_aligned [OF f] read_loop_aligned [OF assms(1)]
        filter_concat [symmetric] process_lines_filter)
  show ?thesis
    using one two [of "(st, p)"] three four five by (simp del: handle_data.simps)
qed

theorem malformed_line_skipped_in_stream_witness:
  "messages (sendStreamingMessage sample_parse id
      (Response True ([''event: ping'' @ newline @ frame_hello @ newline @ frame_malformed @ newline,
                       frame_world @ newline @ newline], Done)) fresh_page)
     = [(''assistant'', ''Hello world'')]"
proof -
  let ?lss = "[[''event: ping'', frame_hello, frame_malformed], [frame_world, []]]"
  have h1: "\<forall>l\<in>set (concat ?lss). CHR 0x0A \<notin> set l"
    by (simp add: frame_hello_def frame_malformed_def frame_world_def)
  have h2: "concat ?lss = [''event: ping''] @ [frame_hello, frame_malformed, frame_world] @ [[]]"
    by simp
  have h: "startsWith frame_hello ''data: ''" "sample_parse (drop 6 frame_hello) = Some (ContentData (Some ''Hello''))"
    "startsWith frame_malformed ''data: ''" "sample_parse (drop 6 frame_malformed) = None"
    "startsWith frame_world ''data: ''" "sample_parse (drop 6 frame_world) = Some (ContentData (Some '' world''))"
    by (simp_all add: frame_hello_def frame_malformed_def frame_world_def startsWith_def sample_parse_def)
  have c: "map chunk_of_lines ?lss
      = [''event: ping'' @ newline @ frame_hello @ newline @ frame_malformed @ newline,
         frame_world @ newline @ newline]"
    by (simp add: chunk_of_lines_def newline_def)
  have t: "line_text sample_parse ''event: ping'' = []" "line_text sample_parse [] = []"
    by (simp_all add: line_text_def startsWith_def)
  have m: "messages fresh_page = []"
    by (simp add: fresh_page_def)
  have r: "messages (sendStreamingMessage sample_parse id
                     (Response True (map chunk_of_lines ?lss, Done)) fresh_page)
           = messages fresh_page @ [(''assistant'', concat (map (line_text sample_parse) [''event: ping''])
                @ ''Hello'' @ '' world'' @ concat (map (line_text sample_parse) [[]]))]"
    using malformed_line_skipped_in_stream [OF h1 h2 h, of id _ fresh_page]
    by (rule conjunct1 [OF conjunct2 [OF conjunct2]])
  show ?thesis
    using r c t m by simp
qed

section \<open>What the response element shows\<close>

lemma shown_set_html:
  "shown d ns \<noteq> None \<Longrightarrow> shown d (map (set_html d h) ns) = Some (Html h)"
proof (induction ns)
  case Nil
  then show ?case by simp
next
  case (Cons n ns)
  then show ?case by (cases n) (auto split: if_splits)
qed

lemma shown_snoc: "\<exists>y. shown d (ns @ [Message d t c]) = Some y"
proof (induction ns)
  case Nil
  then show ?case by simp
next
  case (Cons n ns)
  then show ?case by (cases n) auto
qed

lemma render_shows:
  assumes "responseDiv st = Some d" and "shown d (container p) \<noteq> None"
  shows "render marked_parse (st, p) = (st, set_innerHTML d (addInlineCitations (marked_parse (fullResponse st)) (Some (sources st))) p)"
    and "shown d (container (snd (render marked_parse (st, p))))
         = Some (Html (addInlineCitations (marked_parse (fullResponse st)) (Some (sources st))))"
  using assms by (simp_all add: render_def set_innerHTML_def shown_set_html Let_def)

lemma create_response_div_shown:
  assumes "hasCreatedResponseDiv st \<longrightarrow> (\<exists>d. responseDiv st = Some d \<and> shown d (container p) \<noteq> None)"
    and "create_response_div (st, p) = (st1, p1)"
  shows "\<exists>d. responseDiv st1 = Some d \<and> shown d (container p1) \<noteq> None"
proof (cases "hasCreatedResponseDiv st")
  case True
  with assms show ?thesis by (simp add: create_response_div_def)
next
  case False
  with assms(2) show ?thesis
    by (auto simp add: create_response_div_def addMessage_def Let_def shown_snoc)
qed

lemma metadata_reached:
  "handle_data id (Some (Metadata (Some [doc1]))) (stream_begin fresh_page) = (metadata_state, metadata_page)"
  by (simp add: stream_begin_def createLoadingMessage_def addMessage_def create_response_div_def
      remove_message_def fresh_page_def metadata_state_def metadata_page_def Let_def)

lemma late_metadata_final_state:
  "fullResponse (fst (read_loop sample_parse id [frame_hello @ newline, frame_metadata @ newline]
      (stream_begin fresh_page))) = ''Hello''
   \<and> sources (fst (read_loop sample_parse id [frame_hello @ newline, frame_metadata @ newline]
      (stream_begin fresh_page))) = [doc1]"
  by (simp add: stream_begin_def
      createLoadingMessage_def addMessage_def
      process_chunk_def process_line_def startsWith_def create_response_div_def render_def
      remove_message_def set_innerHTML_def to_string_def
      frame_hello_def frame_metadata_def newline_def sample_parse_def fresh_page_def Let_def)

text \<open>
  Claim C4, as stated, fails: the streaming path renders on content frames only. When the
  metadata frame arrives after the last content frame, the cycle ends with the text "Hello"
  and the source list \<open>[doc1]\<close>, the response element still shows the text without a
  marker, and the non-streaming path shows the marker for the same pair.
\<close>

theorem late_metadata_not_rendered:
  "(fullResponse (fst (read_loop sample_parse id [frame_hello @ newline, frame_metadata @ newline]
      (stream_begin fresh_page))) = ''Hello''
   \<and> sources (fst (read_loop sample_parse id [frame_hello @ newline, frame_metadata @ newline]
      (stream_begin fresh_page))) = [doc1])
   \<and> (sendStreamingMessage sample_parse id
     (Response True ([frame_hello @ newline, frame_metadata @ newline], Done)) fresh_page
   = fresh_page\<lparr>messages := [(''assistant'', ''Hello'')],
                container := [Message 1 ''assistant'' (Html ''Hello'')],
                next_id := 2,
                sourcesList := Some [\<lparr>item_name = ''1. doc1.pdf'', item_link = None, item_author = None\<rparr>],
                sourcesSection := Some ''block''\<rparr>
   \<and> sendRegularMessage id
     (Response True (Inr \<lparr>detail = None, answer = ''Hello'', answer_sources = Some [doc1]\<rparr>)) fresh_page
   = fresh_page\<lparr>messages := [(''assistant'', ''Hello'')],
                container := [Message 1 ''assistant'' (Html ''Hello <span class=\"citation-number\">[1]</span>'')],
                next_id := 2,
                sourcesList := Some [\<lparr>item_name = ''1. doc1.pdf'', item_link = None, item_author = None\<rparr>],
                sourcesSection := Some ''block''\<rparr>)"
proof -
  have n: "number_string (Suc 0) = ''1''" by code_simp
  have d: "displayName doc1 = ''doc1.pdf''" by code_simp
  have l: "\<not> has_link doc1" by code_simp
  have a: "author doc1 = None" by (simp add: doc1_def)
  have pages: "sendStreamingMessage sample_parse id
     (Response True ([frame_hello @ newline, frame_metadata @ newline], Done)) fresh_page
   = fresh_page\<lparr>messages := [(''assistant'', ''Hello'')],
                container := [Message 1 ''assistant'' (Html ''Hello'')],
                next_id := 2,
                sourcesList := Some [\<lparr>item_name = ''1. doc1.pdf'', item_link = None, item_author = None\<rparr>],
                sourcesSection := Some ''block''\<rparr>
   \<and> sendRegularMessage id
     (Response True (Inr \<lparr>detail = None, answer = ''Hello'', answer_sources = Some [doc1]\<rparr>)) fresh_page
   = fresh_page\<lparr>messages := [(''assistant'', ''Hello'')],
                container := [Message 1 ''assistant'' (Html ''Hello <span class=\"citation-number\">[1]</span>'')],
                next_id := 2,
                sourcesList := Some [\<lparr>item_name = ''1. doc1.pdf'', item_link = None, item_author = None\<rparr>],
                sourcesSection := Some ''block''\<rparr>"
    by (simp add: sendStreamingMessage_def sendRegularMessage_def stream_begin_def
      createLoadingMessage_def addMessage_def displaySources_def
      process_chunk_def process_line_def startsWith_def create_response_div_def render_def
      remove_message_def set_innerHTML_def stream_finish_def displaySourcesWithReferences_def
      addInlineCitations_def to_string_def citation_def source_entry_def truthy_def n d l a
      frame_hello_def frame_metadata_def newline_def sample_parse_def fresh_page_def Let_def)
  show ?thesis
    by (rule conjI [OF late_metadata_final_state pages])
qed

text \<open>
  Claim C4, amended. Every render of the streaming path, one after each content frame,
  writes into the response element the formatted text of the whole answer so far followed
  by the citations of the current source list: the markup the non-streaming path puts
  into its message for that text and that list. A metadata frame that arrives once the
  response element exists changes the source list and renders nothing.
\<close>

theorem content_render_matches_regular:
  assumes "hasCreatedResponseDiv st \<longrightarrow> (\<exists>d. responseDiv st = Some d \<and> shown d (container p) \<noteq> None)"
    and "handle_data marked_parse (Some (ContentData t)) (st, p) = (st', p')"
  shows "fullResponse st' = fullResponse st @ to_string t \<and> sources st' = sources st
       \<and> (\<exists>d. responseDiv st' = Some d \<and>
              shown d (container p')
                = Some (Html (addInlineCitations (marked_parse (fullResponse st')) (Some (sources st')))))
       \<and> last (container (sendRegularMessage marked_parse
                  (Response True (Inr \<lparr>detail = x, answer = fullResponse st',
                                       answer_sources = Some (sources st')\<rparr>)) q))
           = Message (Suc (next_id q)) ''assistant''
               (Html (addInlineCitations (marked_parse (fullResponse st')) (Some (sources st'))))
       \<and> (hasCreatedResponseDiv st \<longrightarrow>
            snd (handle_data marked_parse (Some (Metadata srcs)) (st, p)) = p)"
proof -
  have m: "hasCreatedResponseDiv st \<longrightarrow>
            snd (handle_data marked_parse (Some (Metadata srcs)) (st, p)) = p"
    by (simp add: create_response_div_def)
  obtain st1 p1 where c: "create_response_div (st, p) = (st1, p1)"
    by (cases "create_response_div (st, p)")
  obtain d where d: "responseDiv st1 = Some d" "shown d (container p1) \<noteq> None"
    using create_response_div_shown [OF assms(1) c] by blast
  let ?st2 = "st1\<lparr>fullResponse := fullResponse st1 @ to_string t\<rparr>"
  have r: "(st', p') = render marked_parse (?st2, p1)"
    using assms(2) c by simp
  have d2: "responseDiv ?st2 = Some d" using d(1) by simp
  have s': "st' = ?st2"
    using r render_shows(1) [OF d2 d(2), of marked_parse] by simp
  have f: "fullResponse st1 = fullResponse st" "sources st1 = sources st"
    using fst_create_response_div [of "(st, p)"] c by simp_all
  have sh: "shown d (container p')
      = Some (Html (addInlineCitations (marked_parse (fullResponse st')) (Some (sources st'))))"
    using render_shows(2) [OF d2 d(2), of marked_parse] r s'
    by (metis snd_conv)
  have g: "last (container (sendRegularMessage marked_parse
                  (Response True (Inr \<lparr>detail = x, answer = a, answer_sources = Some ss\<rparr>)) q))
           = Message (Suc (next_id q)) ''assistant''
               (Html (addInlineCitations (marked_parse a) (Some ss)))" for a ss
    by (simp add: sendRegularMessage_def displaySources_def displaySourcesWithReferences_def
        last_container_addMessage next_id_remove_message next_id_createLoadingMessage Let_def
        split: prod.splits)
       (auto simp add: addMessage_def Let_def next_id_remove_message
          dest!: next_id_createLoadingMessage)
  show ?thesis
    using s' f d2 sh g m by auto
qed

theorem content_render_matches_regular_witness:
  "hasCreatedResponseDiv metadata_state \<and> responseDiv metadata_state = Some 1
   \<and> shown 1 (container metadata_page) = Some (Text [])
   \<and> handle_data id (Some (ContentData (Some ''Hello''))) (metadata_state, metadata_page)
       = (metadata_state\<lparr>fullResponse := ''Hello''\<rparr>,
          metadata_page\<lparr>container :=
            [Message 1 ''assistant'' (Html ''Hello <span class=\"citation-number\">[1]</span>'')]\<rparr>)
   \<and> last (container (sendRegularMessage id
              (Response True (Inr \<lparr>detail = None, answer = ''Hello'', answer_sources = Some [doc1]\<rparr>))
              fresh_page))
       = Message 1 ''assistant'' (Html ''Hello <span class=\"citation-number\">[1]</span>'')"
proof -
  have h1: "hasCreatedResponseDiv metadata_state \<longrightarrow>
      (\<exists>d. responseDiv metadata_state = Some d \<and> shown d (container metadata_page) \<noteq> None)"
    by (simp add: metadata_state_def metadata_page_def)
  have c: "addInlineCitations ''Hello'' (Some [doc1]) = ''Hello <span class=\"citation-number\">[1]</span>''"
    by code_simp
  have h2: "handle_data id (Some (ContentData (Some ''Hello''))) (metadata_state, metadata_page)
       = (metadata_state\<lparr>fullResponse := ''Hello''\<rparr>,
          metadata_page\<lparr>container :=
            [Message 1 ''assistant'' (Html ''Hello <span class=\"citation-number\">[1]</span>'')]\<rparr>)"
    by (simp add: create_response_div_def render_def set_innerHTML_def to_string_def c
        metadata_state_def metadata_page_def Let_def)
  have n: "next_id fresh_page = 0" by (simp add: fresh_page_def)
  have h0: "hasCreatedResponseDiv metadata_state \<and> responseDiv metadata_state = Some 1
      \<and> shown 1 (container metadata_page) = Some (Text [])"
    by (simp add: metadata_state_def metadata_page_def)
  show ?thesis
    using h0 h2 content_render_matches_regular [OF h1 h2, of None fresh_page] c n
    by (simp add: metadata_state_def)
qed

section \<open>A new chat while a stream is being read\<close>

text \<open>
  Once the response element exists and the container holds the welcome block alone, the
  read loop leaves the container as it is.
\<close>

lemma superseded_handle_data:
  assumes "hasCreatedResponseDiv st" and "container p = [Welcome]"
    and "handle_data marked_parse d (st, p) = (st', p')"
  shows "hasCreatedResponseDiv st' \<and> container p' = [Welcome]"
proof (cases d)
  case None
  with assms show ?thesis by auto
next
  case (Some x)
  with assms show ?thesis
    by (cases x)
       (auto simp add: create_response_div_def render_def set_innerHTML_def Let_def
          split: option.splits)
qed

lemma superseded_process_lines:
  assumes "hasCreatedResponseDiv (fst sp)" and "container (snd sp) = [Welcome]"
  shows "hasCreatedResponseDiv (fst (process_lines JSON_parse marked_parse ls sp))
       \<and> container (snd (process_lines JSON_parse marked_parse ls sp)) = [Welcome]"
  using assms
proof (induction ls arbitrary: sp)
  case Nil
  then show ?case by simp
next
  case (Cons l ls)
  obtain st p where sp: "sp = (st, p)" by (cases sp)
  obtain st' p' where n: "process_line JSON_parse marked_parse l sp = (st', p')"
    by (cases "process_line JSON_parse marked_parse l sp")
  have "hasCreatedResponseDiv st' \<and> container p' = [Welcome]"
  proof (cases "startsWith l ''data: ''")
    case True
    with n sp have h: "handle_data marked_parse (JSON_parse (drop 6 l)) (st, p) = (st', p')"
      by (simp add: process_line_def)
    from Cons.prems sp have "hasCreatedResponseDiv st" and "container p = [Welcome]"
      by simp_all
    then show ?thesis
      using h by (rule superseded_handle_data)
  next
    case False
    with n sp Cons.prems show ?thesis by (simp add: process_line_def)
  qed
  with Cons.IH [of "(st', p')"] n show ?case by simp
qed

lemma superseded_read_loop:
  assumes "hasCreatedResponseDiv (fst sp)" and "container (snd sp) = [Welcome]"
  shows "hasCreatedResponseDiv (fst (read_loop JSON_parse marked_parse chunks sp))
       \<and> container (snd (read_loop JSON_parse marked_parse chunks sp)) = [Welcome]"
  using assms
proof (induction chunks arbitrary: sp)
  case Nil
  then show ?case by simp
next
  case (Cons c cs)
  have "hasCreatedResponseDiv (fst (process_chunk JSON_parse marked_parse c sp))
      \<and> container (snd (process_chunk JSON_parse marked_parse c sp)) = [Welcome]"
    unfolding process_chunk_def using Cons.prems by (rule superseded_process_lines)
  with Cons.IH show ?case by simp
qed

text \<open>
  Claim C3, as stated, fails: nothing stops the superseded cycle. A new chat begun before the
  first chunk arrives is followed by the response element of the old cycle, then by its
  sources in the panel and by its text in the new history.
\<close>

theorem new_chat_does_not_stop_stream:
  "stream_finish (read_loop sample_parse id [frame_metadata @ newline @ frame_hello @ newline]
      (fst (stream_begin fresh_page), startNewChat ''session-new'' (snd (stream_begin fresh_page))))
   = \<lparr>sessionId = ''session-new'',
      messages = [(''assistant'', ''Hello'')],
      container = [Message 1 ''assistant'' (Html ''Hello <span class=\"citation-number\">[1]</span>'')],
      next_id = 2,
      sourcesList = Some [\<lparr>item_name = ''1. doc1.pdf'', item_link = None, item_author = None\<rparr>],
      sourcesSection = Some ''block'',
      console = []\<rparr>"
proof -
  have n: "number_string (Suc 0) = ''1''" by code_simp
  have d: "displayName doc1 = ''doc1.pdf''" by code_simp
  have l: "\<not> has_link doc1" by code_simp
  have a: "author doc1 = None" by (simp add: doc1_def)
  show ?thesis
    by (simp add: stream_begin_def startNewChat_def
      createLoadingMessage_def addMessage_def
      process_chunk_def process_line_def startsWith_def create_response_div_def render_def
      remove_message_def set_innerHTML_def stream_finish_def displaySourcesWithReferences_def
      addInlineCitations_def to_string_def citation_def source_entry_def truthy_def n d l a
      frame_hello_def frame_metadata_def newline_def sample_parse_def fresh_page_def Let_def)
qed

text \<open>
  Claim C3, amended. Starting a new chat shows the empty state at once: an empty history,
  the welcome block alone and, on a page with a sources panel, the panel emptied and hidden.
  If the response element of the cycle in flight had been created before, its later content
  updates are not visible: the read loop leaves the container and the history as the new
  chat set them. The cycle is not cancelled, and at the end of its stream its text is
  appended to the history.
\<close>

theorem new_chat_empty_state_and_late_effects:
  "messages (startNewChat sid p) = [] \<and> container (startNewChat sid p) = [Welcome]
   \<and> (sourcesList p \<noteq> None \<and> sourcesSection p \<noteq> None \<longrightarrow>
        sourcesList (startNewChat sid p) = Some [] \<and> sourcesSection (startNewChat sid p) = Some ''none'')
   \<and> (hasCreatedResponseDiv st \<longrightarrow>
        container (snd (read_loop JSON_parse marked_parse chunks (st, startNewChat sid p))) = [Welcome]
        \<and> messages (snd (read_loop JSON_parse marked_parse chunks (st, startNewChat sid p))) = [])
   \<and> messages (stream_finish (st, q)) = messages q @ [(''assistant'', fullResponse st)]"
proof -
  have a: "messages (startNewChat sid p) = []" "container (startNewChat sid p) = [Welcome]"
    by (simp_all add: startNewChat_def)
  have b: "sourcesList p \<noteq> None \<and> sourcesSection p \<noteq> None \<longrightarrow>
        sourcesList (startNewChat sid p) = Some [] \<and> sourcesSection (startNewChat sid p) = Some ''none''"
    by (auto simp add: startNewChat_def)
  have c: "hasCreatedResponseDiv st \<longrightarrow>
        container (snd (read_loop JSON_parse marked_parse chunks (st, startNewChat sid p))) = [Welcome]"
    using superseded_read_loop [of "(st, startNewChat sid p)" JSON_parse marked_parse chunks] a(2)
    by simp
  have d: "messages (snd (read_loop JSON_parse marked_parse chunks (st, startNewChat sid p))) = []"
    using a(1) by (simp add: messages_read_loop)
  show ?thesis
    using a b c d by (simp add: messages_stream_finish)
qed

theorem new_chat_empty_state_and_late_effects_witness:
  "sourcesList metadata_page \<noteq> None \<and> sourcesSection metadata_page \<noteq> None
   \<and> hasCreatedResponseDiv metadata_state
   \<and> startNewChat ''session-new'' metadata_page
       = fresh_page\<lparr>sessionId := ''session-new'', next_id := 2\<rparr>
   \<and> container (snd (read_loop sample_parse id [frame_hello @ newline]
         (metadata_state, startNewChat ''session-new'' metadata_page))) = [Welcome]
   \<and> messages (stream_finish (read_loop sample_parse id [frame_hello @ newline]
         (metadata_state, startNewChat ''session-new'' metadata_page))) = [(''assistant'', ''Hello'')]"
proof -
  have h: "sourcesList metadata_page \<noteq> None \<and> sourcesSection metadata_page \<noteq> None"
    "hasCreatedResponseDiv metadata_state"
    by (simp_all add: metadata_page_def metadata_state_def fresh_page_def)
  have s: "startNewChat ''session-new'' metadata_page
       = fresh_page\<lparr>sessionId := ''session-new'', next_id := 2\<rparr>"
    by (simp add: startNewChat_def metadata_page_def fresh_page_def)
  obtain st' p' where r: "read_loop sample_parse id [frame_hello @ newline]
         (metadata_state, startNewChat ''session-new'' metadata_page) = (st', p')"
    by (cases "read_loop sample_parse id [frame_hello @ newline]
         (metadata_state, startNewChat ''session-new'' metadata_page)")
  have f: "fullResponse st' = ''Hello''"
    using fullResponse_read_loop [of sample_parse id "[frame_hello @ newline]"
        "(metadata_state, startNewChat ''session-new'' metadata_page)"] r
    by (simp add: line_text_def startsWith_def sample_parse_def frame_hello_def newline_def
        to_string_def metadata_state_def)
  have t: "container p' = [Welcome] \<and> messages p' = []"
    using new_chat_empty_state_and_late_effects
      [of "''session-new''" metadata_page metadata_state sample_parse id "[frame_hello @ newline]"]
      h r by simp
  have m: "messages (stream_finish (st', p')) = messages p' @ [(''assistant'', fullResponse st')]"
    using new_chat_empty_state_and_late_effects [of _ _ st' _ _ _ p'] by blast
  show ?thesis
    using h s r f t m by simp
qed

section \<open>The sources panel during a stream\<close>

text \<open>The read loop never touches the sources panel.\<close>

lemma panel_create_response_div:
  "sourcesSection (snd (create_response_div sp)) = sourcesSection (snd sp)
   \<and> sourcesList (snd (create_response_div sp)) = sourcesList (snd sp)"
  by (cases sp)
     (simp add: create_response_div_def addMessage_def remove_message_def Let_def split: prod.splits)

lemma panel_render:
  "sourcesSection (snd (render marked_parse sp)) = sourcesSection (snd sp)
   \<and> sourcesList (snd (render marked_parse sp)) = sourcesList (snd sp)"
  by (cases sp) (simp add: render_def set_innerHTML_def Let_def split: option.splits)

lemma panel_handle_data:
  "sourcesSection (snd (handle_data marked_parse d sp)) = sourcesSection (snd sp)
   \<and> sourcesList (snd (handle_data marked_parse d sp)) = sourcesList (snd sp)"
proof (cases sp)
  case (Pair st p)
  show ?thesis
  proof (cases d)
    case None
    with Pair show ?thesis by simp
  next
    case (Some x)
    show ?thesis
    proof (cases x)
      case (Metadata srcs)
      with Pair Some show ?thesis
        using panel_create_response_div [of "(st\<lparr>sources := (case srcs of None \<Rightarrow> [] | Some ss \<Rightarrow> ss)\<rparr>, p)"]
        by simp
    next
      case (ContentData t)
      obtain st1 p1 where c: "create_response_div (st, p) = (st1, p1)"
        by (cases "create_response_div (st, p)")
      have "sourcesSection p1 = sourcesSection p \<and> sourcesList p1 = sourcesList p"
        using panel_create_response_div [of "(st, p)"] c by simp
      with Pair Some ContentData c show ?thesis
        by (simp add: panel_render)
    qed (use Pair Some in simp_all)
  qed
qed

lemma panel_process_lines:
  "sourcesSection (snd (process_lines JSON_parse marked_parse ls sp)) = sourcesSection (snd sp)
   \<and> sourcesList (snd (process_lines JSON_parse marked_parse ls sp)) = sourcesList (snd sp)"
  by (induction ls arbitrary: sp) (simp_all add: process_line_def panel_handle_data)

lemma panel_read_loop:
  "sourcesSection (snd (read_loop JSON_parse marked_parse chunks sp)) = sourcesSection (snd sp)
   \<and> sourcesList (snd (read_loop JSON_parse marked_parse chunks sp)) = sourcesList (snd sp)"
  by (induction chunks arbitrary: sp) (simp_all add: process_chunk_def panel_process_lines)

lemma panel_stream_begin:
  "sourcesSection (snd (stream_begin p)) = sourcesSection p
   \<and> sourcesList (snd (stream_begin p)) = sourcesList p"
  by (simp add: stream_begin_def createLoadingMessage_def addMessage_def Let_def)

text \<open>
  Claim C7, as stated, fails: a render with an empty source list does not hide the panel.
  On a page whose panel shows the source of an earlier answer, a metadata frame with no
  sources followed by a content frame leaves the cycle with an empty list and the text
  rendered without markers, and the panel still visible with the earlier entry.
\<close>

theorem panel_stays_visible_mid_stream:
  "read_loop sample_parse id [frame_no_sources @ newline @ frame_hello @ newline]
      (stream_begin answered_page)
     = (\<lparr>loadingDiv = 3, fullResponse = ''Hello'', sources = [], responseDiv = Some 4,
         hasCreatedResponseDiv = True\<rparr>,
        answered_page\<lparr>container := [Message 0 ''user'' (Text ''What is in doc1?''),
                                     Message 2 ''assistant'' (Html ''A guide.''),
                                     Message 4 ''assistant'' (Html ''Hello'')],
                       next_id := 5\<rparr>)
   \<and> sourcesSection (snd (read_loop sample_parse id [frame_no_sources @ newline @ frame_hello @ newline]
        (stream_begin answered_page))) = Some ''block''
   \<and> sourcesList (snd (read_loop sample_parse id [frame_no_sources @ newline @ frame_hello @ newline]
        (stream_begin answered_page)))
       = Some [\<lparr>item_name = ''1. doc1.pdf'', item_link = None, item_author = None\<rparr>]"
  by (simp add: stream_begin_def createLoadingMessage_def addMessage_def
      process_chunk_def process_line_def startsWith_def create_response_div_def render_def
      remove_message_def set_innerHTML_def addInlineCitations_def to_string_def
      frame_hello_def frame_no_sources_def newline_def sample_parse_def answered_page_def Let_def)

text \<open>
  Claim C7, amended. With an empty source list the citation renderer returns the body
  unchanged; a metadata event with no sources leaves the cycle with an empty list, so that
  every render writes the formatted text alone. Renders and metadata events leave the
  sources panel as it is. The panel, on a page that has one, is hidden when the cycle
  completes with an empty list: at the end of the stream on the streaming path, and with
  the answer on the non-streaming path.
\<close>

theorem empty_sources_hidden_at_completion:
  assumes "sourcesSection p \<noteq> None" and "sourcesList p \<noteq> None"
  shows "addInlineCitations body (Some []) = body
       \<and> sources (fst (handle_data marked_parse (Some (Metadata (Some []))) (st, p))) = []
       \<and> (sources st = [] \<longrightarrow> responseDiv st = Some d \<longrightarrow>
            snd (render marked_parse (st, p)) = set_innerHTML d (marked_parse (fullResponse st)) p)
       \<and> sourcesSection (snd (read_loop JSON_parse marked_parse chunks sp)) = sourcesSection (snd sp)
       \<and> sourcesList (snd (read_loop JSON_parse marked_parse chunks sp)) = sourcesList (snd sp)
       \<and> sourcesSection (displaySourcesWithReferences (Some []) p) = Some ''none''
       \<and> (sources (fst (read_loop JSON_parse marked_parse chunks (stream_begin p))) = [] \<longrightarrow>
            sourcesSection (sendStreamingMessage JSON_parse marked_parse (Response True (chunks, Done)) p)
              = Some ''none'')
       \<and> (answer_sources data = Some [] \<longrightarrow>
            sourcesSection (sendRegularMessage marked_parse (Response True (Inr data)) p) = Some ''none''
            \<and> last (container (sendRegularMessage marked_parse (Response True (Inr data)) p))
                = Message (Suc (next_id p)) ''assistant'' (Html (marked_parse (answer data))))"
proof -
  have a: "addInlineCitations body (Some []) = body
       \<and> sources (fst (handle_data marked_parse (Some (Metadata (Some []))) (st, p))) = []
       \<and> (sources st = [] \<longrightarrow> responseDiv st = Some d \<longrightarrow>
            snd (render marked_parse (st, p)) = set_innerHTML d (marked_parse (fullResponse st)) p)
       \<and> sourcesSection (displaySourcesWithReferences (Some []) p) = Some ''none''"
    using assms
    by (auto simp add: addInlineCitations_def create_response_div_def render_def
        displaySourcesWithReferences_def Let_def split: prod.splits)
  obtain st' p' where r: "read_loop JSON_parse marked_parse chunks (stream_begin p) = (st', p')"
    by (cases "read_loop JSON_parse marked_parse chunks (stream_begin p)")
  have pp: "sourcesSection p' = sourcesSection p" "sourcesList p' = sourcesList p"
    using panel_read_loop [of JSON_parse marked_parse chunks "stream_begin p"] panel_stream_begin [of p] r
    by simp_all
  have s: "sources st' = [] \<longrightarrow>
      sourcesSection (sendStreamingMessage JSON_parse marked_parse (Response True (chunks, Done)) p)
        = Some ''none''"
    using assms pp r
    by (auto simp add: sendStreamingMessage_def stream_finish_def displaySourcesWithReferences_def Let_def)
  have g: "answer_sources data = Some [] \<longrightarrow>
            sourcesSection (sendRegularMessage marked_parse (Response True (Inr data)) p) = Some ''none''
            \<and> last (container (sendRegularMessage marked_parse (Response True (Inr data)) p))
                = Message (Suc (next_id p)) ''assistant'' (Html (marked_parse (answer data)))"
    using assms
    by (auto simp add: sendRegularMessage_def createLoadingMessage_def addMessage_def
        remove_message_def displaySources_def displaySourcesWithReferences_def
        addInlineCitations_def Let_def)
  show ?thesis
    using a panel_read_loop [of JSON_parse marked_parse chunks sp] s r g by simp
qed

theorem empty_sources_hidden_at_completion_witness:
  "sourcesSection answered_page = Some ''block''
   \<and> sourcesSection (sendStreamingMessage sample_parse id
        (Response True ([frame_no_sources @ newline @ frame_hello @ newline], Done)) answered_page)
       = Some ''none''"
proof -
  have h: "sourcesSection answered_page \<noteq> None" "sourcesList answered_page \<noteq> None"
    by (simp_all add: answered_page_def)
  have b: "sourcesSection answered_page = Some ''block''"
    by (simp add: answered_page_def)
  have e: "sources (fst (read_loop sample_parse id [frame_no_sources @ newline @ frame_hello @ newline]
        (stream_begin answered_page))) = []"
    by (simp add: stream_begin_def createLoadingMessage_def addMessage_def
      process_chunk_def process_line_def startsWith_def create_response_div_def render_def
      remove_message_def set_innerHTML_def addInlineCitations_def to_string_def
      frame_hello_def frame_no_sources_def newline_def sample_parse_def answered_page_def Let_def)
  have i: "sources (fst (read_loop sample_parse id [frame_no_sources @ newline @ frame_hello @ newline]
        (stream_begin answered_page))) = [] \<longrightarrow>
      sourcesSection (sendStreamingMessage sample_parse id
        (Response True ([frame_no_sources @ newline @ frame_hello @ newline], Done)) answered_page)
       = Some ''none''"
    using empty_sources_hidden_at_completion [OF h, of _ id _ _ sample_parse
        "[frame_no_sources @ newline @ frame_hello @ newline]"]
    by blast
  show ?thesis
    using b e i by blast
qed

end
